theory Spec2Isabelle
  imports Main "HOL-Library.Word"
begin

unbundle bit_operations_syntax

text \<open>
  A shallow embedding of Lynx's ingestion cache (\<open>ingestion.py\<close>) and of its index bootstrap
  and query loop (\<open>main.py\<close>). Python functions become HOL functions on an explicit world
  state; a raised exception is the \<open>Inl\<close> of the result, paired with the world as the raise left
  it. MongoDB, Chroma, pandas, LlamaParse, BeautifulSoup, the text splitter and the chat agent are
  not part of the repository: the store and the index are state with the behaviour their clients
  rely on, the pure libraries are parameters.
\<close>

section \<open>Python values: bytes, text, exceptions\<close>

text \<open>
  A file on disk is a list of bytes. A Python \<open>str\<close> is a list of Unicode code points,
  so \<open>len\<close> and slicing count code points, not bytes. Paths, dictionary keys and
  digests are ASCII and are kept as HOL strings.
\<close>

type_synonym byte = "8 word"
type_synonym pystr = "nat list"
type_synonym path = string

definition lit :: "string \<Rightarrow> pystr" where
  "lit s = map of_char s"

definition nl :: pystr where
  "nl = [10]"

datatype pyerr =
    FileNotFoundError path
  | DuplicateKeyError
  | PyMongoError string
  | ExternalError pystr
  | TypeError string

text \<open>\<open>str(e)\<close> for an exception, as the CSV fallback stores it.\<close>

fun err_str :: "pyerr \<Rightarrow> pystr" where
  "err_str (FileNotFoundError p) = lit p"
| "err_str DuplicateKeyError = lit ''duplicate key error''"
| "err_str (PyMongoError s) = lit s"
| "err_str (ExternalError t) = t"
| "err_str (TypeError s) = lit s"

subsection \<open>Text-mode reads: \<open>open(path, "r", encoding="utf-8", errors="ignore")\<close>\<close>

definition is_cont :: "byte \<Rightarrow> bool" where
  "is_cont b = (0x80 \<le> b \<and> b \<le> 0xBF)"

text \<open>The second byte of a three- or four-byte sequence has a range that depends on the lead
  byte (no overlong forms, no surrogates, nothing above U+10FFFF).\<close>

definition second_ok :: "byte \<Rightarrow> byte \<Rightarrow> bool" where
  "second_ok b c =
     (if b = 0xE0 then 0xA0 \<le> c \<and> c \<le> 0xBF
      else if b = 0xED then 0x80 \<le> c \<and> c \<le> 0x9F
      else if b = 0xF0 then 0x90 \<le> c \<and> c \<le> 0xBF
      else if b = 0xF4 then 0x80 \<le> c \<and> c \<le> 0x8F
      else is_cont c)"

text \<open>UTF-8 decoding with \<open>errors="ignore"\<close>: a byte that cannot start or continue a valid
  sequence is dropped and decoding resumes at the next byte.\<close>

fun utf8_decode_ignore :: "byte list \<Rightarrow> pystr" where
  "utf8_decode_ignore [] = []"
| "utf8_decode_ignore (b # bs) =
     (if b < 0x80 then unat b # utf8_decode_ignore bs
      else if 0xC2 \<le> b \<and> b \<le> 0xDF then
        (case bs of
           c1 # r \<Rightarrow>
             if is_cont c1
             then (unat (b AND 0x1F) * 64 + unat (c1 AND 0x3F)) # utf8_decode_ignore r
             else utf8_decode_ignore bs
         | [] \<Rightarrow> [])
      else if 0xE0 \<le> b \<and> b \<le> 0xEF then
        (case bs of
           c1 # c2 # r \<Rightarrow>
             if second_ok b c1 \<and> is_cont c2
             then (unat (b AND 0x0F) * 4096 + unat (c1 AND 0x3F) * 64 + unat (c2 AND 0x3F))
                    # utf8_decode_ignore r
             else utf8_decode_ignore bs
         | _ \<Rightarrow> utf8_decode_ignore bs)
      else if 0xF0 \<le> b \<and> b \<le> 0xF4 then
        (case bs of
           c1 # c2 # c3 # r \<Rightarrow>
             if second_ok b c1 \<and> is_cont c2 \<and> is_cont c3
             then (unat (b AND 0x07) * 262144 + unat (c1 AND 0x3F) * 4096
                     + unat (c2 AND 0x3F) * 64 + unat (c3 AND 0x3F))
                    # utf8_decode_ignore r
             else utf8_decode_ignore bs
         | _ \<Rightarrow> utf8_decode_ignore bs)
      else utf8_decode_ignore bs)"

text \<open>Universal newlines (the default \<open>newline=None\<close>): \<open>\r\n\<close> and a lone \<open>\r\<close> are read
  as \<open>\n\<close>.\<close>

fun universal_newlines :: "pystr \<Rightarrow> pystr" where
  "universal_newlines [] = []"
| "universal_newlines (c # cs) =
     (if c = 13 then
        (case cs of
           d # r \<Rightarrow> if d = 10 then 10 # universal_newlines r else 10 # universal_newlines cs
         | [] \<Rightarrow> [10])
      else c # universal_newlines cs)"

definition decode_text :: "byte list \<Rightarrow> pystr" where
  "decode_text bs = universal_newlines (utf8_decode_ignore bs)"

text \<open>\<open>f.read(n)\<close> on a text file: \<open>n\<close> characters at most; a negative \<open>n\<close> reads to the end.\<close>

definition py_read :: "int \<Rightarrow> pystr \<Rightarrow> pystr" where
  "py_read n t = (if n < 0 then t else take (nat n) t)"

text \<open>The slice \<open>s[:n]\<close>; a negative \<open>n\<close> counts from the end.\<close>

definition slice_to :: "int \<Rightarrow> 'a list \<Rightarrow> 'a list" where
  "slice_to n xs = (if n < 0 then take (length xs - nat (- n)) xs else take (nat n) xs)"

text \<open>\<open>sep.join(parts)\<close>.\<close>

fun join :: "pystr \<Rightarrow> pystr list \<Rightarrow> pystr" where
  "join sep [] = []"
| "join sep [x] = x"
| "join sep (x # y # ys) = x @ sep @ join sep (y # ys)"

section \<open>The environment: files, the cache store, external libraries\<close>

record file_node =
  content :: "byte list"
  mtime :: nat

datatype meta_val = MStr pystr | MInt int | MBool bool | MTime nat | MNone

text \<open>A Python \<open>dict\<close> with string keys, in insertion order.\<close>

type_synonym pydict = "(string \<times> meta_val) list"

definition dict_get :: "pydict \<Rightarrow> string \<Rightarrow> meta_val" where
  "dict_get d k = (case map_of d k of Some v \<Rightarrow> v | None \<Rightarrow> MNone)"

text \<open>The document \<open>upsert_parsed_doc\<close> builds and the collection stores.\<close>

record cached_parse =
  file_hash :: string
  file_path :: path
  file_size :: nat
  file_mtime :: nat
  md :: pystr
  meta :: pydict
  cached_at :: nat

text \<open>A retrieved chunk (a langchain \<open>Document\<close>); \<open>page_content\<close> may be \<open>None\<close>.\<close>

record document =
  page_content :: "pystr option"
  metadata :: pydict

text \<open>A page of a LlamaParse result: its \<open>md\<close> attribute when it has one, and \<open>str(page)\<close>.\<close>

record page =
  page_md :: "pystr option"
  page_str :: pystr

text \<open>What the code reads of a pandas DataFrame: column names and dtypes (as \<open>str\<close> prints
  them) and the rows.\<close>

record dataframe =
  df_columns :: "pystr list"
  df_dtypes :: "pystr list"
  df_rows :: "pystr list list"

text \<open>Calls to the collaborators, in the order they happen.\<close>

datatype event =
    MongoFind string
  | MongoInsert cached_parse
  | LlamaParse path
  | PandasReadCsv path
  | JsonLoad path
  | SoupParse path
  | SplitText
  | VdbGet
  | VdbAdd nat
  | VdbSearch pystr
  | AgentInvoke pystr
  | Print pystr

text \<open>
  The state the program runs in. \<open>coll\<close> is the MongoDB collection with its unique index
  on \<open>file_hash\<close>. \<open>mongo_env\<close> is what the rest of the world does to the store: for each
  coming store operation, the documents other processes insert just before it, and whether the
  operation itself fails with a driver error other than the duplicate-key one. An empty list is
  a store nobody else writes to and that never fails. \<open>vdb\<close> is the content of the vector
  index, and \<open>chroma_env\<close> says for each coming index operation whether it fails.
\<close>

record world =
  fs :: "(path \<times> file_node) list"
  walk :: "(path \<times> (path \<times> string list) list) list"
  coll :: "cached_parse list"
  mongo_env :: "(cached_parse list \<times> string option) list"
  clock :: nat
  vdb :: "(pystr \<times> pydict) list"
  chroma_env :: "pyerr option list"
  trace :: "event list"

text \<open>
  The libraries the code calls and the repository does not contain, as parameters.
  \<open>llama_parse\<close> gives the pages of \<open>parser.parse\<close>; \<open>json_load\<close> and \<open>json_dumps\<close> work
  on a payload type \<open>'j\<close>; \<open>soup_get_text\<close> is BeautifulSoup's parse, the removal of script,
  style and noscript elements, and \<open>get_text\<close>; \<open>split_text\<close> is \<open>splitter.split_text\<close> of
  the \<open>RecursiveCharacterTextSplitter\<close> built from \<open>CHUNK_SIZE\<close> and \<open>CHUNK_OVERLAP\<close>;
  \<open>similarity_search\<close> reads the index content; \<open>agent_invoke\<close> returns the last message
  of the agent's answer.
\<close>

record 'j externals =
  sha256_hex :: "byte list \<Rightarrow> string"
  abspath :: "path \<Rightarrow> path"
  llama_parse :: "byte list \<Rightarrow> pyerr + page list"
  pd_read_csv :: "byte list \<Rightarrow> pyerr + dataframe"
  to_markdown :: "dataframe \<Rightarrow> pyerr + pystr"
  to_json :: "dataframe \<Rightarrow> pyerr + pystr"
  json_load :: "pystr \<Rightarrow> pyerr + 'j"
  json_dumps :: "'j \<Rightarrow> pyerr + pystr"
  soup_get_text :: "pystr \<Rightarrow> pystr"
  split_text :: "pystr \<Rightarrow> pystr list"
  similarity_search :: "(pystr \<times> pydict) list \<Rightarrow> pystr \<Rightarrow> int \<Rightarrow> pyerr + document list"
  agent_invoke :: "pystr \<Rightarrow> pyerr + pystr"

definition log :: "event \<Rightarrow> world \<Rightarrow> world" where
  "log e w = w\<lparr>trace := trace w @ [e]\<rparr>"

definition os_path_exists :: "world \<Rightarrow> path \<Rightarrow> bool" where
  "os_path_exists w p = (map_of (fs w) p \<noteq> None)"

subsection \<open>The store\<close>

definition find_hash :: "string \<Rightarrow> cached_parse list \<Rightarrow> cached_parse option" where
  "find_hash h ds = find (\<lambda>d. file_hash d = h) ds"

text \<open>Other processes insert through the same unique index: a document whose hash is already
  there is rejected.\<close>

fun concurrent_inserts :: "cached_parse list \<Rightarrow> cached_parse list \<Rightarrow> cached_parse list" where
  "concurrent_inserts ds [] = ds"
| "concurrent_inserts ds (d # r) =
     concurrent_inserts (if find_hash (file_hash d) ds = None then ds @ [d] else ds) r"

definition mongo_step :: "world \<Rightarrow> string option \<times> world" where
  "mongo_step w =
     (case mongo_env w of
        [] \<Rightarrow> (None, w)
      | (others, flt) # rest \<Rightarrow>
          (flt, w\<lparr>coll := concurrent_inserts (coll w) others, mongo_env := rest\<rparr>))"

text \<open>\<open>coll.find_one({"file_hash": h})\<close>.\<close>

definition find_one :: "string \<Rightarrow> world \<Rightarrow> (pyerr + cached_parse option) \<times> world" where
  "find_one h w =
     (case mongo_step w of
        (flt, w1) \<Rightarrow>
          (let w2 = log (MongoFind h) w1 in
           case flt of
             Some msg \<Rightarrow> (Inl (PyMongoError msg), w2)
           | None \<Rightarrow> (Inr (find_hash h (coll w2)), w2)))"

text \<open>\<open>coll.insert_one(doc)\<close> under the unique index on \<open>file_hash\<close>.\<close>

definition insert_one :: "cached_parse \<Rightarrow> world \<Rightarrow> (pyerr + unit) \<times> world" where
  "insert_one doc w =
     (case mongo_step w of
        (flt, w1) \<Rightarrow>
          (let w2 = log (MongoInsert doc) w1 in
           case flt of
             Some msg \<Rightarrow> (Inl (PyMongoError msg), w2)
           | None \<Rightarrow>
               if find_hash (file_hash doc) (coll w2) \<noteq> None
               then (Inl DuplicateKeyError, w2)
               else (Inr (), w2\<lparr>coll := coll w2 @ [doc]\<rparr>)))"

text \<open>The index invariant: no two stored documents share a \<open>file_hash\<close>.\<close>

definition unique_index :: "cached_parse list \<Rightarrow> bool" where
  "unique_index ds = distinct (map file_hash ds)"

text \<open>The collection as the next store operation finds it, after the writers that come
  before it.\<close>

definition store_seen :: "world \<Rightarrow> cached_parse list" where
  "store_seen w = coll (snd (mongo_step w))"

text \<open>None of the next \<open>n\<close> store operations fails with a driver error.\<close>

definition no_driver_failure :: "nat \<Rightarrow> world \<Rightarrow> bool" where
  "no_driver_failure n w = list_all (\<lambda>e. snd e = None) (take n (mongo_env w))"

section \<open>ingestion.py\<close>

subsection \<open>Helpers: hashing and the cache\<close>

text \<open>\<open>iter(lambda: f.read(8192), b"")\<close>: blocks of at most \<open>n\<close> bytes until an empty read.\<close>

function read_chunks :: "nat \<Rightarrow> byte list \<Rightarrow> byte list list" where
  "read_chunks n bs = (if take n bs = [] then [] else take n bs # read_chunks n (drop n bs))"
  by pat_completeness auto
termination
  by (relation "measure (\<lambda>(n, bs). length bs)") auto

declare read_chunks.simps [simp del]

definition sha256_of_file :: "'j externals \<Rightarrow> path \<Rightarrow> world \<Rightarrow> pyerr + string" where
  "sha256_of_file ext p w =
     (case map_of (fs w) p of
        None \<Rightarrow> Inl (FileNotFoundError p)
      | Some f \<Rightarrow> Inr (sha256_hex ext (foldl (@) [] (read_chunks 8192 (content f)))))"

definition get_cached_parse :: "string \<Rightarrow> world \<Rightarrow> (pyerr + cached_parse option) \<times> world" where
  "get_cached_parse h w = find_one h w"

text \<open>\<open>meta or {}\<close>: \<open>None\<close> and the empty dict both give the empty dict.\<close>

definition meta_or_empty :: "pydict option \<Rightarrow> pydict" where
  "meta_or_empty m = (case m of None \<Rightarrow> [] | Some d \<Rightarrow> d)"

text \<open>The dict \<open>upsert_parsed_doc\<close> builds before it inserts.\<close>

definition new_doc ::
  "'j externals \<Rightarrow> path \<Rightarrow> string \<Rightarrow> pystr \<Rightarrow> pydict option \<Rightarrow> file_node \<Rightarrow> world
     \<Rightarrow> cached_parse" where
  "new_doc ext p h m mt f w =
     \<lparr>file_hash = h, file_path = abspath ext p, file_size = length (content f),
      file_mtime = mtime f, md = m, meta = meta_or_empty mt, cached_at = clock w\<rparr>"

text \<open>\<open>os.stat\<close> raises for a path that is not there; only \<open>DuplicateKeyError\<close> is caught.\<close>

definition upsert_parsed_doc ::
  "'j externals \<Rightarrow> path \<Rightarrow> string \<Rightarrow> pystr \<Rightarrow> pydict option \<Rightarrow> world
     \<Rightarrow> (pyerr + cached_parse) \<times> world" where
  "upsert_parsed_doc ext p h m mt w =
     (case map_of (fs w) p of
        None \<Rightarrow> (Inl (FileNotFoundError p), w)
      | Some f \<Rightarrow>
          (let doc = new_doc ext p h m mt f w
           in case insert_one doc w of
                (Inr u, w1) \<Rightarrow> (Inr doc, w1)
              | (Inl DuplicateKeyError, w1) \<Rightarrow>
                  (case get_cached_parse h w1 of
                     (Inl e, w2) \<Rightarrow> (Inl e, w2)
                   | (Inr cached, w2) \<Rightarrow>
                       (Inr (case cached of Some c \<Rightarrow> c | None \<Rightarrow> doc), w2))
              | (Inl e, w1) \<Rightarrow> (Inl e, w1)))"

subsection \<open>Python string methods the parsers use\<close>

text \<open>\<open>str.isspace\<close> for one character.\<close>

definition is_space :: "nat \<Rightarrow> bool" where
  "is_space c =
     ((9 \<le> c \<and> c \<le> 13) \<or> (28 \<le> c \<and> c \<le> 32) \<or> c = 133 \<or> c = 160 \<or> c = 5760
      \<or> (8192 \<le> c \<and> c \<le> 8202) \<or> c = 8232 \<or> c = 8233 \<or> c = 8239 \<or> c = 8287
      \<or> c = 12288)"

definition strip :: "pystr \<Rightarrow> pystr" where
  "strip t = rev (dropWhile is_space (rev (dropWhile is_space t)))"

text \<open>The line boundaries of \<open>str.splitlines\<close> other than \<open>\r\<close>, which is handled with the
  \<open>\n\<close> that may follow it.\<close>

definition is_linebreak :: "nat \<Rightarrow> bool" where
  "is_linebreak c =
     (c = 10 \<or> c = 11 \<or> c = 12 \<or> c = 28 \<or> c = 29 \<or> c = 30 \<or> c = 133 \<or> c = 8232 \<or> c = 8233)"

fun splitlines_from :: "pystr \<Rightarrow> pystr \<Rightarrow> pystr list" where
  "splitlines_from cur [] = (if cur = [] then [] else [cur])"
| "splitlines_from cur (c # cs) =
     (if c = 13 then
        (case cs of
           d # r \<Rightarrow> if d = 10 then cur # splitlines_from [] r else cur # splitlines_from [] cs
         | [] \<Rightarrow> [cur])
      else if is_linebreak c then cur # splitlines_from [] cs
      else splitlines_from (cur @ [c]) cs)"

definition splitlines :: "pystr \<Rightarrow> pystr list" where
  "splitlines t = splitlines_from [] t"

subsection \<open>The protocol the four parsers share\<close>

definition cache_hit_meta :: "string \<Rightarrow> cached_parse \<Rightarrow> pydict" where
  "cache_hit_meta h c =
     [(''cached'', MBool True), (''file_hash'', MStr (lit h)), (''cached_at'', MTime (cached_at c))]"

text \<open>
  Each of \<open>parse_pdf_document\<close>, \<open>parse_csv_document\<close>, \<open>parse_json_document\<close> and
  \<open>parse_html_document\<close> opens with the same lines: raise \<open>FileNotFoundError\<close> when the
  path does not exist, hash the file, and with \<open>use_cache\<close> return the cached text on a hit.
  \<open>body\<close> is what the parser does after them.
\<close>

definition cached_or ::
  "'j externals \<Rightarrow> path \<Rightarrow> bool
     \<Rightarrow> (string \<Rightarrow> world \<Rightarrow> (pyerr + pystr \<times> pydict) \<times> world)
     \<Rightarrow> world \<Rightarrow> (pyerr + pystr \<times> pydict) \<times> world" where
  "cached_or ext p use_cache body w =
     (if \<not> os_path_exists w p then (Inl (FileNotFoundError p), w)
      else case sha256_of_file ext p w of
             Inl e \<Rightarrow> (Inl e, w)
           | Inr h \<Rightarrow>
               (if use_cache then
                  (case get_cached_parse h w of
                     (Inl e, w1) \<Rightarrow> (Inl e, w1)
                   | (Inr (Some c), w1) \<Rightarrow> (Inr (md c, cache_hit_meta h c), w1)
                   | (Inr None, w1) \<Rightarrow> body h w1)
                else body h w))"

text \<open>The last two lines of every parser: insert, and return the stored text with the status.\<close>

definition store_and_return ::
  "'j externals \<Rightarrow> path \<Rightarrow> string \<Rightarrow> pystr \<Rightarrow> pydict \<Rightarrow> (cached_parse \<Rightarrow> pydict)
     \<Rightarrow> world \<Rightarrow> (pyerr + pystr \<times> pydict) \<times> world" where
  "store_and_return ext p h m mt status w =
     (case upsert_parsed_doc ext p h m (Some mt) w of
        (Inl e, w1) \<Rightarrow> (Inl e, w1)
      | (Inr stored, w1) \<Rightarrow> (Inr (md stored, status stored), w1))"

subsection \<open>Parsers\<close>

definition pdf_body ::
  "'j externals \<Rightarrow> path \<Rightarrow> string \<Rightarrow> world \<Rightarrow> (pyerr + pystr \<times> pydict) \<times> world" where
  "pdf_body ext p h w =
     (case map_of (fs w) p of
        None \<Rightarrow> (Inl (FileNotFoundError p), w)
      | Some f \<Rightarrow>
          (let w1 = log (LlamaParse p) w in
           case llama_parse ext (content f) of
             Inl e \<Rightarrow> (Inl e, w1)
           | Inr pages \<Rightarrow>
               (let result_md =
                      join (nl @ nl)
                        (map (\<lambda>pg. case page_md pg of Some t \<Rightarrow> t | None \<Rightarrow> page_str pg) pages)
                in store_and_return ext p h result_md
                     [(''type'', MStr (lit ''pdf'')), (''pages'', MInt (int (length pages)))]
                     (\<lambda>stored. [(''cached'', MBool False), (''file_hash'', MStr (lit h)),
                                 (''stored_at'', MTime (cached_at stored))])
                     w1)))"

definition parse_pdf_document ::
  "'j externals \<Rightarrow> path \<Rightarrow> bool \<Rightarrow> world \<Rightarrow> (pyerr + pystr \<times> pydict) \<times> world" where
  "parse_pdf_document ext p use_cache w = cached_or ext p use_cache (pdf_body ext p) w"

text \<open>The text the CSV parser stores when \<open>pd.read_csv\<close> raises.\<close>

definition csv_fallback_md :: "byte list \<Rightarrow> pystr" where
  "csv_fallback_md bs =
     lit ''```'' @ nl @ py_read 100000 (decode_text bs) @ nl @ lit ''```''"

definition csv_body ::
  "'j externals \<Rightarrow> path \<Rightarrow> int \<Rightarrow> string \<Rightarrow> world \<Rightarrow> (pyerr + pystr \<times> pydict) \<times> world" where
  "csv_body ext p max_rows_preview h w =
     (case map_of (fs w) p of
        None \<Rightarrow> (Inl (FileNotFoundError p), w)
      | Some f \<Rightarrow>
          (let w1 = log (PandasReadCsv p) w in
           case pd_read_csv ext (content f) of
             Inl e \<Rightarrow>
               store_and_return ext p h (csv_fallback_md (content f))
                 [(''type'', MStr (lit ''csv'')), (''error'', MStr (err_str e))]
                 (\<lambda>stored. [(''cached'', MBool False), (''file_hash'', MStr (lit h))])
                 w1
           | Inr df \<Rightarrow>
               (let schema_lines =
                      map (\<lambda>(col, dtype). lit ''- **'' @ col @ lit ''**: '' @ dtype)
                        (zip (df_columns df) (df_dtypes df));
                    preview = df\<lparr>df_rows := slice_to max_rows_preview (df_rows df)\<rparr>;
                    m0 = lit ''### Schema'' @ nl @ nl @ join nl schema_lines @ nl @ nl
                           @ lit ''### Preview (first rows)'' @ nl @ nl
                in case (case to_markdown ext preview of
                           Inr t \<Rightarrow> Inr t
                         | Inl e \<Rightarrow> to_json ext preview) of
                     Inl e \<Rightarrow> (Inl e, w1)
                   | Inr t \<Rightarrow>
                       store_and_return ext p h (m0 @ t)
                         [(''type'', MStr (lit ''csv'')), (''rows'', MInt (int (length (df_rows df)))),
                          (''cols'', MInt (int (length (df_columns df))))]
                         (\<lambda>stored. [(''cached'', MBool False), (''file_hash'', MStr (lit h)),
                                     (''rows'', MInt (int (length (df_rows df))))])
                         w1)))"

definition parse_csv_document ::
  "'j externals \<Rightarrow> path \<Rightarrow> bool \<Rightarrow> int \<Rightarrow> world \<Rightarrow> (pyerr + pystr \<times> pydict) \<times> world" where
  "parse_csv_document ext p use_cache max_rows_preview w =
     cached_or ext p use_cache (csv_body ext p max_rows_preview) w"

text \<open>The except branch of the JSON parser: \<open>f.seek(0)\<close>, \<open>f.read(max_chars)\<close>, the slice and
  the marker.\<close>

definition json_fallback :: "int \<Rightarrow> pystr \<Rightarrow> pystr" where
  "json_fallback max_chars t =
     (let pretty = py_read max_chars t
      in slice_to max_chars pretty
           @ (if int (length pretty) = max_chars then nl @ lit ''...truncated'' else []))"

definition json_pretty :: "'j externals \<Rightarrow> int \<Rightarrow> pystr \<Rightarrow> pystr" where
  "json_pretty ext max_chars t =
     (case (case json_load ext t of
              Inl e \<Rightarrow> Inl e
            | Inr payload \<Rightarrow> json_dumps ext payload) of
        Inr pretty \<Rightarrow> pretty
      | Inl e \<Rightarrow> json_fallback max_chars t)"

definition json_body ::
  "'j externals \<Rightarrow> path \<Rightarrow> int \<Rightarrow> string \<Rightarrow> world \<Rightarrow> (pyerr + pystr \<times> pydict) \<times> world" where
  "json_body ext p max_chars h w =
     (case map_of (fs w) p of
        None \<Rightarrow> (Inl (FileNotFoundError p), w)
      | Some f \<Rightarrow>
          (let w1 = log (JsonLoad p) w;
               pretty = json_pretty ext max_chars (decode_text (content f))
           in store_and_return ext p h (lit ''```json'' @ nl @ pretty @ nl @ lit ''```'')
                [(''type'', MStr (lit ''json''))]
                (\<lambda>stored. [(''cached'', MBool False), (''file_hash'', MStr (lit h))])
                w1))"

definition parse_json_document ::
  "'j externals \<Rightarrow> path \<Rightarrow> bool \<Rightarrow> int \<Rightarrow> world \<Rightarrow> (pyerr + pystr \<times> pydict) \<times> world" where
  "parse_json_document ext p use_cache max_chars w =
     cached_or ext p use_cache (json_body ext p max_chars) w"

text \<open>From the raw read to \<open>md\<close> in the HTML parser. \<open>soup_get_text\<close> stands for building the
  soup, extracting the script, style and noscript elements, and \<open>get_text("\n")\<close>.\<close>

definition html_md :: "'j externals \<Rightarrow> int \<Rightarrow> byte list \<Rightarrow> pystr" where
  "html_md ext max_chars bs =
     (let raw = py_read max_chars (decode_text bs);
          txt = soup_get_text ext raw;
          lines = filter (\<lambda>ln. ln \<noteq> []) (map strip (splitlines txt));
          text_clean = join (nl @ nl) lines
      in if int (length text_clean) \<le> max_chars then text_clean
         else slice_to max_chars text_clean @ nl @ nl @ lit ''...truncated'')"

definition html_body ::
  "'j externals \<Rightarrow> path \<Rightarrow> int \<Rightarrow> string \<Rightarrow> world \<Rightarrow> (pyerr + pystr \<times> pydict) \<times> world" where
  "html_body ext p max_chars h w =
     (case map_of (fs w) p of
        None \<Rightarrow> (Inl (FileNotFoundError p), w)
      | Some f \<Rightarrow>
          store_and_return ext p h (html_md ext max_chars (content f))
            [(''type'', MStr (lit ''html''))]
            (\<lambda>stored. [(''cached'', MBool False), (''file_hash'', MStr (lit h))])
            (log (SoupParse p) w))"

definition parse_html_document ::
  "'j externals \<Rightarrow> path \<Rightarrow> bool \<Rightarrow> int \<Rightarrow> world \<Rightarrow> (pyerr + pystr \<times> pydict) \<times> world" where
  "parse_html_document ext p use_cache max_chars w =
     cached_or ext p use_cache (html_body ext p max_chars) w"

subsection \<open>The dispatcher\<close>

definition basename :: "path \<Rightarrow> string" where
  "basename p = rev (takeWhile (\<lambda>c. c \<noteq> CHR ''/'') (rev p))"

text \<open>\<open>os.path.splitext(path)[1]\<close>: from the last dot of the last component, unless only dots
  come before it.\<close>

definition splitext_ext :: "path \<Rightarrow> string" where
  "splitext_ext p =
     (let b = basename p;
          after = rev (takeWhile (\<lambda>c. c \<noteq> CHR ''.'') (rev b));
          stem = take (length b - length after - 1) b
      in if CHR ''.'' \<notin> set b \<or> (\<forall>c \<in> set stem. c = CHR ''.'') then []
         else CHR ''.'' # after)"

definition lower_char :: "char \<Rightarrow> char" where
  "lower_char c =
     (if (65::nat) \<le> of_char c \<and> of_char c \<le> (90::nat) then char_of (of_char c + (32::nat)) else c)"

definition parse_file_by_type ::
  "'j externals \<Rightarrow> path \<Rightarrow> bool \<Rightarrow> world \<Rightarrow> (pyerr + pystr \<times> pydict) \<times> world" where
  "parse_file_by_type ext p use_cache w =
     (let e = map lower_char (splitext_ext p)
      in if e = ''.pdf'' then parse_pdf_document ext p use_cache w
         else if e = ''.csv'' then parse_csv_document ext p use_cache 500 w
         else if e = ''.json'' then parse_json_document ext p use_cache 200000 w
         else if e = ''.html'' \<or> e = ''.htm'' then parse_html_document ext p use_cache 200000 w
         else
           (case map_of (fs w) p of
              None \<Rightarrow> (Inl (FileNotFoundError p), w)
            | Some f \<Rightarrow>
                (let txt = py_read 200000 (decode_text (content f))
                 in case sha256_of_file ext p w of
                      Inl e \<Rightarrow> (Inl e, w)
                    | Inr h \<Rightarrow>
                        store_and_return ext p h txt
                          [(''type'', MStr (lit ''txt_or_other''))]
                          (\<lambda>stored. [(''cached'', MBool False), (''file_hash'', MStr (lit h))])
                          w)))"

section \<open>main.py\<close>

subsection \<open>The vector index\<close>

definition chroma_step :: "world \<Rightarrow> pyerr option \<times> world" where
  "chroma_step w =
     (case chroma_env w of
        [] \<Rightarrow> (None, w)
      | flt # rest \<Rightarrow> (flt, w\<lparr>chroma_env := rest\<rparr>))"

text \<open>\<open>vectordb.get()["metadatas"]\<close>.\<close>

definition vdb_get :: "world \<Rightarrow> (pyerr + pydict list) \<times> world" where
  "vdb_get w =
     (case chroma_step w of
        (Some e, w1) \<Rightarrow> (Inl e, log VdbGet w1)
      | (None, w1) \<Rightarrow> (Inr (map snd (vdb w1)), log VdbGet w1))"

text \<open>\<open>vectordb.add_texts(texts=texts, metadatas=metadatas)\<close>.\<close>

definition vdb_add_texts :: "pystr list \<Rightarrow> pydict list \<Rightarrow> world \<Rightarrow> (pyerr + unit) \<times> world" where
  "vdb_add_texts texts metadatas w =
     (case chroma_step w of
        (Some e, w1) \<Rightarrow> (Inl e, log (VdbAdd (length texts)) w1)
      | (None, w1) \<Rightarrow>
          (Inr (), (log (VdbAdd (length texts)) w1)\<lparr>vdb := vdb w1 @ zip texts metadatas\<rparr>))"

subsection \<open>\<open>build_or_load_vectorstore\<close>\<close>

text \<open>The probe: a failing \<open>get\<close> counts as an empty index.\<close>

definition has_content :: "world \<Rightarrow> bool \<times> world" where
  "has_content w =
     (case vdb_get w of
        (Inr ms, w1) \<Rightarrow> (length ms > 0, w1)
      | (Inl e, w1) \<Rightarrow> (False, w1))"

text \<open>\<open>os.walk(input_dir)\<close> as (root, files) pairs; a directory that is not there yields
  nothing.\<close>

definition os_walk :: "world \<Rightarrow> path \<Rightarrow> (path \<times> string list) list" where
  "os_walk w d = (case map_of (walk w) d of Some l \<Rightarrow> l | None \<Rightarrow> [])"

definition os_path_join :: "path \<Rightarrow> string \<Rightarrow> path" where
  "os_path_join root fname =
     (if take 1 fname = ''/'' then fname
      else if root = [] \<or> last root = CHR ''/'' then root @ fname
      else root @ ''/'' @ fname)"

definition chunk_metadata :: "string \<Rightarrow> pydict \<Rightarrow> nat \<Rightarrow> pydict" where
  "chunk_metadata fname mt i =
     [(''source'', MStr (lit fname)), (''file_hash'', dict_get mt ''file_hash''),
      (''chunk_id'', MInt (int i))]"

text \<open>The inner loop over the files of one directory. \<open>except Exception: continue\<close> skips
  the file whatever \<open>parse_file_by_type\<close> raised.\<close>

fun ingest_files ::
  "'j externals \<Rightarrow> path \<Rightarrow> string list \<Rightarrow> pystr list \<times> pydict list \<Rightarrow> world
     \<Rightarrow> (pystr list \<times> pydict list) \<times> world" where
  "ingest_files ext root [] acc w = (acc, w)"
| "ingest_files ext root (fname # rest) acc w =
     (if take 1 fname = ''.'' then ingest_files ext root rest acc w
      else case parse_file_by_type ext (os_path_join root fname) True w of
             (Inl e, w1) \<Rightarrow> ingest_files ext root rest acc w1
           | (Inr (m, mt), w1) \<Rightarrow>
               (let chunks = split_text ext m
                in ingest_files ext root rest
                     (fst acc @ chunks,
                      snd acc @ map (chunk_metadata fname mt) [0 ..< length chunks])
                     (log SplitText w1)))"

text \<open>The outer loop over the directories \<open>os.walk\<close> yields.\<close>

fun ingest_dirs ::
  "'j externals \<Rightarrow> (path \<times> string list) list \<Rightarrow> pystr list \<times> pydict list \<Rightarrow> world
     \<Rightarrow> (pystr list \<times> pydict list) \<times> world" where
  "ingest_dirs ext [] acc w = (acc, w)"
| "ingest_dirs ext ((root, files) # rest) acc w =
     (case ingest_files ext root files acc w of
        (acc1, w1) \<Rightarrow> ingest_dirs ext rest acc1 w1)"

definition build_or_load_vectorstore ::
  "'j externals \<Rightarrow> path \<Rightarrow> world \<Rightarrow> (pyerr + unit) \<times> world" where
  "build_or_load_vectorstore ext input_dir w =
     (case has_content w of
        (True, w1) \<Rightarrow> (Inr (), w1)
      | (False, w1) \<Rightarrow>
          (case ingest_dirs ext (os_walk w1 input_dir) ([], []) w1 of
             ((texts, metadatas), w2) \<Rightarrow>
               if texts \<noteq> [] then vdb_add_texts texts metadatas w2 else (Inr (), w2)))"

subsection \<open>\<open>build_context_snippets\<close>\<close>

function digits :: "nat \<Rightarrow> pystr" where
  "digits n = (if n < 10 then [48 + n] else digits (n div 10) @ [48 + n mod 10])"
  by pat_completeness auto
termination
  by (relation "measure id") auto

declare digits.simps [simp del]

text \<open>A metadata value inside an f-string.\<close>

fun format_val :: "meta_val \<Rightarrow> pystr" where
  "format_val (MStr t) = t"
| "format_val (MInt i) = (if i < 0 then lit ''-'' @ digits (nat (- i)) else digits (nat i))"
| "format_val (MBool b) = (if b then lit ''True'' else lit ''False'')"
| "format_val (MTime n) = digits n"
| "format_val MNone = lit ''None''"

definition context_part :: "int \<Rightarrow> document \<Rightarrow> pystr" where
  "context_part char_limit_per_chunk doc =
     (let src = (case map_of (metadata doc) ''source'' of
                   Some v \<Rightarrow> v
                 | None \<Rightarrow> MStr (lit ''unknown''));
          chunk_id = dict_get (metadata doc) ''chunk_id'';
          txt = strip (case page_content doc of Some t \<Rightarrow> t | None \<Rightarrow> []);
          txt' = (if int (length txt) > char_limit_per_chunk
                  then slice_to char_limit_per_chunk txt @ nl @ nl @ lit ''...[truncated]''
                  else txt)
      in lit ''--- CONTEXT (file: '' @ format_val src @ lit '', chunk: '' @ format_val chunk_id
           @ lit '') ---'' @ nl @ txt' @ nl)"

definition build_context_snippets :: "document list \<Rightarrow> int \<Rightarrow> pystr" where
  "build_context_snippets retrieved_documents char_limit_per_chunk =
     join nl (map (context_part char_limit_per_chunk) retrieved_documents)"

subsection \<open>\<open>main\<close>\<close>

text \<open>The handler of the query block: \<open>print("Error during query:")\<close> and the traceback.\<close>

definition query_failed :: "pyerr \<Rightarrow> world \<Rightarrow> world" where
  "query_failed e w = log (Print (err_str e)) (log (Print (lit ''Error during query:'')) w)"

text \<open>
  The \<open>try\<close> block of \<open>main\<close>, from \<open>input\<close> to \<open>pretty_print\<close>. \<open>line\<close> is what \<open>input\<close>
  returns, or the exception it raises; \<open>top_k\<close> is \<open>TOP_K\<close>.
\<close>

definition main_query :: "'j externals \<Rightarrow> int \<Rightarrow> pyerr + pystr \<Rightarrow> world \<Rightarrow> world" where
  "main_query ext top_k line w =
     (let w0 = log (Print (lit ''Please Enter the user query below...'' @ nl @ lit ''> '')) w
      in case line of
        Inl e \<Rightarrow> query_failed e w0
      | Inr typed \<Rightarrow>
          (let query = strip typed
           in if query = [] then log (Print (lit ''No query provided. Exiting.'')) w0
              else
                (let w1 = log (VdbSearch query) w0
                 in case similarity_search ext (vdb w) query top_k of
                      Inl e \<Rightarrow> query_failed e w1
                    | Inr results \<Rightarrow>
                        if results = [] then log (Print (lit ''Data not found!'')) w1
                        else
                          (let context = build_context_snippets results 2000;
                               w2 = log (Print (lit ''context for the query :  '' @ query)) w1;
                               prompt = lit ''CONTEXT:'' @ nl @ nl @ context @ nl @ nl
                                          @ lit ''User question: '' @ query @ nl @ nl
                                          @ lit ''Answer concisely and cite sources.'';
                               w3 = log (AgentInvoke prompt) w2
                           in case agent_invoke ext prompt of
                                Inl e \<Rightarrow> query_failed e w3
                              | Inr answer \<Rightarrow> log (Print answer) w3))))"

text \<open>
  \<open>main\<close> calls \<open>build_or_load_vectorstore(INPUT_DIR, VECTORDB_DIR)\<close>. The function has one
  parameter, so the call raises \<open>TypeError\<close> before its body runs, and \<open>main\<close> prints the
  failure and returns.
\<close>

definition call_with_two_arguments :: "world \<Rightarrow> (pyerr + unit) \<times> world" where
  "call_with_two_arguments w =
     (Inl (TypeError ''build_or_load_vectorstore() takes 1 positional argument but 2 were given''), w)"

definition main :: "'j externals \<Rightarrow> int \<Rightarrow> pyerr + pystr \<Rightarrow> world \<Rightarrow> world" where
  "main ext top_k line w =
     (case call_with_two_arguments (log (Print (lit ''[start] building/loading vectorstore...'')) w) of
        (Inl e, w1) \<Rightarrow> log (Print (lit ''Vectorstore init failed: '' @ err_str e)) w1
      | (Inr u, w1) \<Rightarrow> main_query ext top_k line w1)"

section \<open>Sample inputs\<close>

text \<open>Stand-ins for the libraries: a CSV reader and a JSON loader that reject their input, a
  PDF service that returns one page, an HTML extractor and a splitter that keep the text whole,
  an index search that finds nothing.\<close>

definition tokenizing_error :: pystr where
  "tokenizing_error =
     lit ''Error tokenizing data. C error: Expected 2 fields in line 3, saw 3'' @ nl"

definition expecting_value :: pystr where
  "expecting_value = lit ''Expecting value: line 1 column 1 (char 0)''"

definition sample_ext :: "unit externals" where
  "sample_ext =
     \<lparr>sha256_hex = (\<lambda>bs. replicate (length bs) (CHR ''f'')),
      abspath = (\<lambda>p. ''/srv/'' @ p),
      llama_parse = (\<lambda>bs. Inr [\<lparr>page_md = Some [112], page_str = [60, 112, 62]\<rparr>]),
      pd_read_csv = (\<lambda>bs. Inl (ExternalError tokenizing_error)),
      to_markdown = (\<lambda>df. Inl (ExternalError [110, 111])),
      to_json = (\<lambda>df. Inr [91, 93]),
      json_load = (\<lambda>t. Inl (ExternalError expecting_value)),
      json_dumps = (\<lambda>u. Inr [110, 117, 108, 108]),
      soup_get_text = (\<lambda>t. t),
      split_text = (\<lambda>t. if t = [] then [] else [t]),
      similarity_search = (\<lambda>v q k. Inr []),
      agent_invoke = (\<lambda>prompt. Inr [111, 107])\<rparr>"

text \<open>A file holding the two bytes of \<open>hi\<close>; the stand-in digest of a two-byte file is
  \<open>ff\<close>.\<close>

definition hi_file :: file_node where
  "hi_file = \<lparr>content = [0x68, 0x69], mtime = 7\<rparr>"

text \<open>A document another process stores under the digest of \<open>hi_file\<close>.\<close>

definition rival_doc :: cached_parse where
  "rival_doc =
     \<lparr>file_hash = ''ff'', file_path = ''/srv/b.txt'', file_size = 2, file_mtime = 5,
      md = [104, 105], meta = [(''type'', MStr (lit ''txt_or_other''))], cached_at = 6\<rparr>"

text \<open>A world with one file and an empty store; the first store operation comes after another
  process has inserted \<open>rival_doc\<close>.\<close>

definition race_world :: world where
  "race_world =
     \<lparr>fs = [(''a.txt'', hi_file)], walk = [(''in'', [(''in'', [''a.txt''])])], coll = [],
      mongo_env = [([rival_doc], None)], clock = 9, vdb = [], chroma_env = [], trace = []\<rparr>"

text \<open>A world whose store already holds a record under the digest of \<open>a.txt\<close>, with no other
  writer and no failure.\<close>

definition cached_world :: world where
  "cached_world =
     \<lparr>fs = [(''a.txt'', hi_file)], walk = [(''in'', [(''in'', [''a.txt''])])], coll = [rival_doc],
      mongo_env = [], clock = 9, vdb = [], chroma_env = [], trace = []\<rparr>"

section \<open>Predicates used in the properties\<close>

text \<open>The \<open>type\<close> discriminant: present, a string, and one of the five.\<close>

definition doc_types :: "pystr list" where
  "doc_types = map lit [''pdf'', ''csv'', ''json'', ''html'', ''txt_or_other'']"

definition has_type :: "pydict \<Rightarrow> bool" where
  "has_type mt = (case map_of mt ''type'' of Some (MStr v) \<Rightarrow> v \<in> set doc_types | _ \<Rightarrow> False)"

fun event_typed :: "event \<Rightarrow> bool" where
  "event_typed (MongoInsert d) = has_type (meta d)"
| "event_typed e = True"

text \<open>What a world may become while the ingestion code runs: events are logged, the other
  writers and this process insert documents, the index receives texts. Every document this process
  offers to the store carries a \<open>type\<close>.\<close>

inductive steps :: "world \<Rightarrow> world \<Rightarrow> bool" where
  steps_refl: "steps w w"
| steps_log: "steps w w1 \<Longrightarrow> event_typed e \<Longrightarrow> steps w (log e w1)"
| steps_env: "steps w w1 \<Longrightarrow> steps w (snd (mongo_step w1))"
| steps_insert: "steps w w1 \<Longrightarrow> has_type (meta d) \<Longrightarrow> steps w (w1\<lparr>coll := coll w1 @ [d]\<rparr>)"
| steps_add: "steps w w1 \<Longrightarrow> steps w (w1\<lparr>vdb := v\<rparr>)"
| steps_index: "steps w w1 \<Longrightarrow> steps w (snd (chroma_step w1))"



text \<open>The store holds typed documents only, and so do the documents the other writers are
  going to insert.\<close>

definition store_typed :: "world \<Rightarrow> bool" where
  "store_typed w =
     (list_all (\<lambda>d. has_type (meta d)) (coll w)
      \<and> list_all (\<lambda>e. list_all (\<lambda>d. has_type (meta d)) (fst e)) (mongo_env w))"

text \<open>The worlds this subsystem can reach from \<open>w0\<close>: any number of calls of
  \<open>parse_file_by_type\<close> and of \<open>build_or_load_vectorstore\<close>, on any paths, interleaved with
  the writers of \<open>mongo_env\<close>.\<close>

inductive reachable :: "'j externals \<Rightarrow> world \<Rightarrow> world \<Rightarrow> bool" for ext and w0 where
  reach_start: "reachable ext w0 w0"
| reach_parse: "reachable ext w0 w \<Longrightarrow> reachable ext w0 (snd (parse_file_by_type ext p uc w))"
| reach_bootstrap:
    "reachable ext w0 w \<Longrightarrow> reachable ext w0 (snd (build_or_load_vectorstore ext input_dir w))"




text \<open>\<open>json.load\<close> followed by \<open>json.dumps\<close> raises: the \<open>except\<close> branch of the JSON parser
  runs.\<close>

definition json_parse_fails :: "'j externals \<Rightarrow> pystr \<Rightarrow> bool" where
  "json_parse_fails ext t =
     (case json_load ext t of
        Inl e \<Rightarrow> True
      | Inr payload \<Rightarrow> (case json_dumps ext payload of Inl e \<Rightarrow> True | Inr pretty \<Rightarrow> False))"

text \<open>The sixteen bytes of \<open>aa,bb\n1,2\n3,4,5\n\<close>: a CSV whose third line has a field too
  many, which \<open>pd.read_csv\<close> rejects.\<close>

definition bad_csv_head :: "byte list" where
  "bad_csv_head =
     [0x61, 0x61, 0x2C, 0x62, 0x62, 0x0A, 0x31, 0x2C, 0x32, 0x0A, 0x33, 0x2C, 0x34, 0x2C, 0x35, 0x0A]"


definition bad_csv_file :: file_node where
  "bad_csv_file = \<lparr>content = bad_csv_head, mtime = 7\<rparr>"

text \<open>A world with one file per text format, an empty store that nobody else writes to, and
  an empty index.\<close>

definition formats_world :: world where
  "formats_world =
     \<lparr>fs = [(''t.csv'', bad_csv_file), (''d.json'', hi_file), (''p.html'', hi_file)],
      walk = [], coll = [], mongo_env = [], clock = 9, vdb = [], chroma_env = [], trace = []\<rparr>"





section \<open>Properties\<close>

subsection \<open>Hashing reads the whole file\<close>

lemma read_chunks_foldl: "0 < n \<Longrightarrow> foldl (@) acc (read_chunks n bs) = acc @ bs"
proof (induction n bs arbitrary: acc rule: read_chunks.induct)
  case (1 n bs)
  show ?case
  proof (cases "take n bs = []")
    case True
    then have "bs = []" using "1.prems" by (cases bs) auto
    then show ?thesis by (subst read_chunks.simps) simp
  next
    case False
    have "foldl (@) (acc @ take n bs) (read_chunks n (drop n bs)) = (acc @ take n bs) @ drop n bs"
      using "1.IH" [OF False "1.prems"] .
    then show ?thesis using False by (subst read_chunks.simps) simp
  qed
qed


subsection \<open>The store and \<open>upsert_parsed_doc\<close>\<close>

lemma find_hash_Some: "find_hash h ds = Some d \<Longrightarrow> d \<in> set ds \<and> file_hash d = h"
  unfolding find_hash_def by (induction ds) (auto split: if_splits)

lemma find_hash_None: "(find_hash h ds = None) = (h \<notin> file_hash ` set ds)"
  unfolding find_hash_def by (induction ds) auto

lemma find_hash_append:
  "find_hash h (ds @ es) = (case find_hash h ds of Some d \<Rightarrow> Some d | None \<Rightarrow> find_hash h es)"
  unfolding find_hash_def by (induction ds) auto

lemma concurrent_inserts_extends: "\<exists>ys. concurrent_inserts ds os = ds @ ys"
proof (induction os arbitrary: ds)
  case Nil
  then show ?case by simp
next
  case (Cons d r)
  obtain ys where "concurrent_inserts (if find_hash (file_hash d) ds = None then ds @ [d] else ds) r
      = (if find_hash (file_hash d) ds = None then ds @ [d] else ds) @ ys"
    using Cons.IH by blast
  then show ?case by (cases "find_hash (file_hash d) ds = None") auto
qed

lemma concurrent_inserts_unique:
  "unique_index ds \<Longrightarrow> unique_index (concurrent_inserts ds os)"
proof (induction os arbitrary: ds)
  case Nil
  then show ?case by simp
next
  case (Cons d r)
  have "unique_index (if find_hash (file_hash d) ds = None then ds @ [d] else ds)"
    using Cons.prems by (auto simp: unique_index_def find_hash_None)
  then show ?case using Cons.IH by simp
qed

lemma unique_filter:
  "unique_index ds \<Longrightarrow> find_hash h ds = Some d \<Longrightarrow> filter (\<lambda>x. file_hash x = h) ds = [d]"
  unfolding unique_index_def find_hash_def
proof (induction ds)
  case Nil
  then show ?case by simp
next
  case (Cons a ds)
  show ?case
  proof (cases "file_hash a = h")
    case True
    then have "a = d" using Cons.prems by simp
    moreover have "filter (\<lambda>x. file_hash x = h) ds = []"
      using Cons.prems True by (auto simp: filter_empty_conv image_iff)
    ultimately show ?thesis using True by simp
  next
    case False
    then show ?thesis using Cons by simp
  qed
qed


lemma mongo_step_frame:
  "fs (snd (mongo_step w)) = fs w"
  "trace (snd (mongo_step w)) = trace w"
  "clock (snd (mongo_step w)) = clock w"
  "vdb (snd (mongo_step w)) = vdb w"
  "chroma_env (snd (mongo_step w)) = chroma_env w"
  "walk (snd (mongo_step w)) = walk w"
  "mongo_env (snd (mongo_step w)) = tl (mongo_env w)"
  unfolding mongo_step_def by (auto split: list.splits)

lemma mongo_step_fault:
  "fst (mongo_step w) = (case mongo_env w of [] \<Rightarrow> None | e # r \<Rightarrow> snd e)"
  unfolding mongo_step_def by (auto split: list.splits)

lemma mongo_step_extends: "\<exists>ys. coll (snd (mongo_step w)) = coll w @ ys"
  unfolding mongo_step_def using concurrent_inserts_extends
  by (auto split: list.splits)

lemma mongo_step_unique: "unique_index (coll w) \<Longrightarrow> unique_index (coll (snd (mongo_step w)))"
  unfolding mongo_step_def using concurrent_inserts_unique
  by (auto split: list.splits)

lemma log_frame:
  "fs (log e w) = fs w" "coll (log e w) = coll w" "mongo_env (log e w) = mongo_env w"
  "clock (log e w) = clock w" "vdb (log e w) = vdb w" "chroma_env (log e w) = chroma_env w"
  "walk (log e w) = walk w" "trace (log e w) = trace w @ [e]"
  unfolding log_def by simp_all

lemma mongo_step_log: "mongo_step (log e w) = (fst (mongo_step w), log e (snd (mongo_step w)))"
  unfolding mongo_step_def log_def by (auto split: list.splits)

lemma insert_one_eq:
  "insert_one doc w =
     (case fst (mongo_step w) of
        Some msg \<Rightarrow> (Inl (PyMongoError msg), log (MongoInsert doc) (snd (mongo_step w)))
      | None \<Rightarrow>
          if find_hash (file_hash doc) (coll (snd (mongo_step w))) \<noteq> None
          then (Inl DuplicateKeyError, log (MongoInsert doc) (snd (mongo_step w)))
          else (Inr (), (log (MongoInsert doc) (snd (mongo_step w)))
                          \<lparr>coll := coll (snd (mongo_step w)) @ [doc]\<rparr>))"
  unfolding insert_one_def by (simp add: Let_def log_frame split: prod.splits option.splits)

lemma find_one_eq:
  "find_one h w =
     (case fst (mongo_step w) of
        Some msg \<Rightarrow> (Inl (PyMongoError msg), log (MongoFind h) (snd (mongo_step w)))
      | None \<Rightarrow> (Inr (find_hash h (coll (snd (mongo_step w)))), log (MongoFind h) (snd (mongo_step w))))"
  unfolding find_one_def by (simp add: Let_def log_frame split: prod.splits option.splits)

lemma upsert_won:
  assumes "map_of (fs w) p = Some f" and "fst (mongo_step w) = None"
    and "find_hash h (coll (snd (mongo_step w))) = None"
  shows "upsert_parsed_doc ext p h m mt w =
           (Inr (new_doc ext p h m mt f w),
            (log (MongoInsert (new_doc ext p h m mt f w)) (snd (mongo_step w)))
               \<lparr>coll := coll (snd (mongo_step w)) @ [new_doc ext p h m mt f w]\<rparr>)"
  using assms unfolding upsert_parsed_doc_def
  by (simp add: insert_one_eq Let_def new_doc_def)

lemma upsert_lost:
  assumes "map_of (fs w) p = Some f" and "fst (mongo_step w) = None"
    and "find_hash h (coll (snd (mongo_step w))) = Some c"
    and "fst (mongo_step (snd (mongo_step w))) = None"
  shows "upsert_parsed_doc ext p h m mt w =
           (Inr c, log (MongoFind h)
                     (snd (mongo_step (log (MongoInsert (new_doc ext p h m mt f w)) (snd (mongo_step w))))))"
proof -
  let ?w1 = "snd (mongo_step w)"
  let ?doc = "new_doc ext p h m mt f w"
  let ?wa = "log (MongoInsert ?doc) ?w1"
  have ins: "insert_one ?doc w = (Inl DuplicateKeyError, ?wa)"
    using assms by (simp add: insert_one_eq new_doc_def)
  obtain ys where ys: "coll (snd (mongo_step ?w1)) = coll ?w1 @ ys"
    using mongo_step_extends by blast
  have seen: "find_hash h (coll (snd (mongo_step ?wa))) = Some c"
    using assms(3) ys by (simp add: mongo_step_log log_frame find_hash_append)
  have "get_cached_parse h ?wa = (Inr (Some c), log (MongoFind h) (snd (mongo_step ?wa)))"
    unfolding get_cached_parse_def using assms(4) seen
    by (simp add: find_one_eq mongo_step_log)
  then show ?thesis
    using assms(1) ins unfolding upsert_parsed_doc_def
    by (simp add: Let_def)
qed



lemma no_driver_failure_step:
  "no_driver_failure (Suc n) w \<Longrightarrow> fst (mongo_step w) = None \<and> no_driver_failure n (snd (mongo_step w))"
  unfolding no_driver_failure_def
  by (cases "mongo_env w") (auto simp: mongo_step_fault mongo_step_frame)

lemma no_driver_failure_log: "no_driver_failure n (log e w) = no_driver_failure n w"
  unfolding no_driver_failure_def by (simp add: log_frame)

text \<open>
  Claim C1. A call of \<open>upsert_parsed_doc\<close> whose path can be stat-ed and whose two store
  operations (the insert and, after a duplicate key, the lookup) meet no driver failure does not
  raise. It returns a record \<open>d\<close> with the requested fingerprint, and afterwards \<open>d\<close> is the one
  and only stored record with that fingerprint, the unique index still holding. When a writer has
  persisted a record with the fingerprint before the insert reaches the store, \<open>d\<close> is that
  winning record, and the operations performed are the rejected insert followed by the lookup.
\<close>

theorem upsert_parsed_doc_race:
  assumes stat: "map_of (fs w) p = Some f"
    and healthy: "no_driver_failure 2 w"
    and uniq: "unique_index (coll w)"
  shows "\<exists>d w'. upsert_parsed_doc ext p h m mt w = (Inr d, w')
           \<and> file_hash d = h
           \<and> filter (\<lambda>x. file_hash x = h) (coll w') = [d]
           \<and> unique_index (coll w')
           \<and> (\<forall>winner. find_hash h (store_seen w) = Some winner \<longrightarrow>
                 d = winner
                 \<and> trace w' = trace w @ [MongoInsert (new_doc ext p h m mt f w), MongoFind h])"
proof -
  let ?w1 = "snd (mongo_step w)"
  let ?doc = "new_doc ext p h m mt f w"
  have f1: "fst (mongo_step w) = None" and h1: "no_driver_failure 1 ?w1"
    using no_driver_failure_step [of 1 w] healthy by (simp_all add: numeral_2_eq_2)
  have f2: "fst (mongo_step ?w1) = None"
    using no_driver_failure_step [of 0 ?w1] h1 by simp
  have u1: "unique_index (coll ?w1)"
    using uniq by (rule mongo_step_unique)
  show ?thesis
  proof (cases "find_hash h (coll ?w1)")
    case None
    have res: "upsert_parsed_doc ext p h m mt w =
                 (Inr ?doc, (log (MongoInsert ?doc) ?w1)\<lparr>coll := coll ?w1 @ [?doc]\<rparr>)"
      using upsert_won [OF stat f1 None] .
    have hd: "file_hash ?doc = h" by (simp add: new_doc_def)
    have nomatch: "filter (\<lambda>x. file_hash x = h) (coll ?w1) = []"
      using None by (auto simp: find_hash_None filter_empty_conv)
    have "unique_index (coll ?w1 @ [?doc])"
      using u1 None hd by (auto simp: unique_index_def find_hash_None)
    then show ?thesis
      using res hd nomatch None by (simp add: store_seen_def)
  next
    case (Some c)
    let ?w2 = "snd (mongo_step (log (MongoInsert ?doc) ?w1))"
    have res: "upsert_parsed_doc ext p h m mt w = (Inr c, log (MongoFind h) ?w2)"
      using upsert_lost [OF stat f1 Some f2] .
    have hc: "file_hash c = h" using Some find_hash_Some by blast
    have c2: "coll ?w2 = coll (snd (mongo_step ?w1))"
      by (simp add: mongo_step_log log_frame)
    obtain ys where ys: "coll (snd (mongo_step ?w1)) = coll ?w1 @ ys"
      using mongo_step_extends by blast
    have u2: "unique_index (coll ?w2)"
      using u1 c2 mongo_step_unique by simp
    have "find_hash h (coll ?w2) = Some c"
      using Some ys c2 by (simp add: find_hash_append)
    then have "filter (\<lambda>x. file_hash x = h) (coll ?w2) = [c]"
      using u2 unique_filter by blast
    moreover have "trace (log (MongoFind h) ?w2) = trace w @ [MongoInsert ?doc, MongoFind h]"
      by (simp add: mongo_step_log log_frame mongo_step_frame)
    ultimately show ?thesis
      using res hc u2 Some by (simp add: store_seen_def log_frame)
  qed
qed


text \<open>An instance: another process inserts \<open>rival_doc\<close> just before this caller's insert;
  the caller gets \<open>rival_doc\<close> back.\<close>

theorem upsert_parsed_doc_race_witness:
  "map_of (fs race_world) ''a.txt'' = Some hi_file
   \<and> no_driver_failure 2 race_world
   \<and> unique_index (coll race_world)
   \<and> find_hash ''ff'' (store_seen race_world) = Some rival_doc
   \<and> fst (upsert_parsed_doc sample_ext ''a.txt'' ''ff'' [104, 105] None race_world) = Inr rival_doc"
proof -
  have a: "map_of (fs race_world) ''a.txt'' = Some hi_file"
    by (simp add: race_world_def)
  have b: "no_driver_failure 2 race_world"
    by (simp add: race_world_def no_driver_failure_def)
  have c: "unique_index (coll race_world)"
    by (simp add: race_world_def unique_index_def)
  have d: "find_hash ''ff'' (store_seen race_world) = Some rival_doc"
    by (simp add: race_world_def store_seen_def mongo_step_def find_hash_def rival_doc_def)
  show ?thesis
    using upsert_parsed_doc_race [OF a b c, of sample_ext "''ff''" "[104, 105]" None] a b c d
    by auto
qed

subsection \<open>The cache short-circuit\<close>

text \<open>On a hit with \<open>use_cache\<close>, the shared opening returns the cached text with
  \<open>cached: True\<close> after one lookup, whatever the parser's body is: the body does not run.\<close>

lemma cached_or_hit:
  assumes "os_path_exists w p" and "sha256_of_file ext p w = Inr h"
    and "fst (mongo_step w) = None" and "find_hash h (store_seen w) = Some c"
  shows "cached_or ext p True body w =
           (Inr (md c, cache_hit_meta h c), log (MongoFind h) (snd (mongo_step w)))"
  using assms unfolding cached_or_def get_cached_parse_def store_seen_def
  by (simp add: find_one_eq)

lemma parsers_short_circuit:
  assumes "os_path_exists w p" and "sha256_of_file ext p w = Inr h"
    and "fst (mongo_step w) = None" and "find_hash h (store_seen w) = Some c"
  shows "parse_pdf_document ext p True w =
           (Inr (md c, cache_hit_meta h c), log (MongoFind h) (snd (mongo_step w)))"
    and "parse_csv_document ext p True n w =
           (Inr (md c, cache_hit_meta h c), log (MongoFind h) (snd (mongo_step w)))"
    and "parse_json_document ext p True k w =
           (Inr (md c, cache_hit_meta h c), log (MongoFind h) (snd (mongo_step w)))"
    and "parse_html_document ext p True k w =
           (Inr (md c, cache_hit_meta h c), log (MongoFind h) (snd (mongo_step w)))"
  unfolding parse_pdf_document_def parse_csv_document_def parse_json_document_def
    parse_html_document_def
  using cached_or_hit [OF assms] by simp_all

lemma splitext_a_txt: "map lower_char (splitext_ext ''a.txt'') = ''.txt''"
  by (simp add: splitext_ext_def basename_def lower_char_def Let_def)

lemma sha_hi: "sha256_of_file sample_ext ''a.txt'' cached_world = Inr ''ff''"
  by (simp add: sha256_of_file_def read_chunks_foldl cached_world_def sample_ext_def hi_file_def)

text \<open>
  Claim C2 at a plain file. \<open>a.txt\<close> has an extension none of the four parsers takes, and its
  digest is already in the store. With \<open>use_cache = True\<close>, \<open>parse_file_by_type\<close> does return
  the cached text, but it never looks the cache up first: it reads the file, attempts an insert,
  re-reads the store after the duplicate key, and reports \<open>cached: False\<close>.
\<close>

theorem plain_file_ignores_cache:
  "find_hash ''ff'' (coll cached_world) = Some rival_doc
   \<and> parse_file_by_type sample_ext ''a.txt'' True cached_world =
       (Inr (md rival_doc, [(''cached'', MBool False), (''file_hash'', MStr (lit ''ff''))]),
        cached_world\<lparr>trace :=
          [MongoInsert (new_doc sample_ext ''a.txt'' ''ff'' [104, 105]
                          (Some [(''type'', MStr (lit ''txt_or_other''))]) hi_file cached_world),
           MongoFind ''ff'']\<rparr>)"
proof -
  have a: "find_hash ''ff'' (coll cached_world) = Some rival_doc"
    by (simp add: cached_world_def find_hash_def rival_doc_def)
  have st: "mongo_step cached_world = (None, cached_world)"
    by (simp add: mongo_step_def cached_world_def)
  have f: "map_of (fs cached_world) ''a.txt'' = Some hi_file"
    by (simp add: cached_world_def)
  have rd: "py_read 200000 (decode_text (content hi_file)) = [104, 105]"
    by (simp add: py_read_def decode_text_def hi_file_def)
  let ?doc = "new_doc sample_ext ''a.txt'' ''ff'' [104, 105]
                (Some [(''type'', MStr (lit ''txt_or_other''))]) hi_file cached_world"
  have up: "upsert_parsed_doc sample_ext ''a.txt'' ''ff'' [104, 105]
              (Some [(''type'', MStr (lit ''txt_or_other''))]) cached_world =
            (Inr rival_doc, log (MongoFind ''ff'')
               (snd (mongo_step (log (MongoInsert ?doc) (snd (mongo_step cached_world))))))"
    by (rule upsert_lost [OF f]) (simp_all add: st a)
  have w: "log (MongoFind ''ff'') (snd (mongo_step (log (MongoInsert ?doc) (snd (mongo_step cached_world)))))
           = cached_world\<lparr>trace := [MongoInsert ?doc, MongoFind ''ff'']\<rparr>"
    by (simp add: mongo_step_log st) (simp add: log_def cached_world_def)
  have "parse_file_by_type sample_ext ''a.txt'' True cached_world =
          (Inr (md rival_doc, [(''cached'', MBool False), (''file_hash'', MStr (lit ''ff''))]),
           cached_world\<lparr>trace := [MongoInsert ?doc, MongoFind ''ff'']\<rparr>)"
    unfolding parse_file_by_type_def store_and_return_def
    by (simp add: splitext_a_txt f rd sha_hi up w Let_def)
  with a show ?thesis by simp
qed

subsection \<open>Every path of the ingestion code is a sequence of steps\<close>

lemma steps_trans: "steps b c \<Longrightarrow> steps a b \<Longrightarrow> steps a c"
  by (induction rule: steps.induct) (auto intro: steps.intros)

lemma find_one_snd: "snd (find_one h w) = log (MongoFind h) (snd (mongo_step w))"
  by (simp add: find_one_eq split: option.splits)

lemma steps_find_one: "steps w (snd (find_one h w))"
  unfolding find_one_snd by (intro steps.intros) simp

lemma steps_insert_one:
  assumes "has_type (meta d)"
  shows "steps w (snd (insert_one d w))"
proof -
  let ?w1 = "log (MongoInsert d) (snd (mongo_step w))"
  have a: "steps w ?w1"
    using assms by (intro steps.intros) simp
  have "steps w (?w1\<lparr>coll := coll ?w1 @ [d]\<rparr>)"
    using a assms by (rule steps_insert)
  then have b: "steps w (?w1\<lparr>coll := coll (snd (mongo_step w)) @ [d]\<rparr>)"
    by (simp add: log_frame)
  show ?thesis
    using a b by (simp add: insert_one_eq split: option.splits)
qed

lemma has_type_new_doc: "has_type mt \<Longrightarrow> has_type (meta (new_doc ext p h m (Some mt) f w))"
  by (simp add: new_doc_def meta_or_empty_def)

lemma steps_upsert:
  assumes "has_type mt"
  shows "steps w (snd (upsert_parsed_doc ext p h m (Some mt) w))"
proof (cases "map_of (fs w) p")
  case None
  then show ?thesis by (simp add: upsert_parsed_doc_def steps_refl)
next
  case (Some f)
  let ?doc = "new_doc ext p h m (Some mt) f w"
  have i: "steps w (snd (insert_one ?doc w))"
    using assms by (intro steps_insert_one has_type_new_doc)
  have l: "steps w (snd (get_cached_parse h (snd (insert_one ?doc w))))"
    unfolding get_cached_parse_def using steps_trans [OF steps_find_one i] .
  show ?thesis
    using Some i l unfolding upsert_parsed_doc_def
    by (auto simp: Let_def split: prod.splits sum.splits pyerr.splits)
qed

lemma steps_store_and_return:
  "has_type mt \<Longrightarrow> steps w (snd (store_and_return ext p h m mt st w))"
  using steps_upsert [of mt w ext p h m]
  unfolding store_and_return_def by (auto split: prod.splits sum.splits)

lemma has_type_literals:
  "has_type ((''type'', MStr (lit ''pdf'')) # r1)"
  "has_type ((''type'', MStr (lit ''csv'')) # r2)"
  "has_type ((''type'', MStr (lit ''json'')) # r3)"
  "has_type ((''type'', MStr (lit ''html'')) # r4)"
  "has_type ((''type'', MStr (lit ''txt_or_other'')) # r5)"
  by (simp_all add: has_type_def doc_types_def)

lemma steps_after_log:
  "event_typed e \<Longrightarrow> steps (log e w) w' \<Longrightarrow> steps w w'"
  by (rule steps_trans [where b = "log e w"]) (auto intro: steps.intros)

lemma steps_pdf_body: "steps w (snd (pdf_body ext p h w))"
  unfolding pdf_body_def
  by (auto simp: Let_def has_type_literals split: option.splits sum.splits
      intro!: steps_refl steps_log steps_after_log [OF _ steps_store_and_return])

lemma steps_csv_body: "steps w (snd (csv_body ext p n h w))"
  unfolding csv_body_def
  by (auto simp: Let_def has_type_literals split: option.splits sum.splits
      intro!: steps_refl steps_log steps_after_log [OF _ steps_store_and_return])

lemma steps_json_body: "steps w (snd (json_body ext p n h w))"
  unfolding json_body_def
  by (auto simp: Let_def has_type_literals split: option.splits sum.splits
      intro!: steps_refl steps_log steps_after_log [OF _ steps_store_and_return])

lemma steps_html_body: "steps w (snd (html_body ext p n h w))"
  unfolding html_body_def
  by (auto simp: Let_def has_type_literals split: option.splits sum.splits
      intro!: steps_refl steps_log steps_after_log [OF _ steps_store_and_return])

lemma steps_cached_or:
  assumes "\<And>h w1. steps w1 (snd (body h w1))"
  shows "steps w (snd (cached_or ext p uc body w))"
proof (cases "os_path_exists w p")
  case False
  then show ?thesis by (simp add: cached_or_def steps_refl)
next
  case True
  show ?thesis
  proof (cases "sha256_of_file ext p w")
    case (Inl e)
    then show ?thesis using True by (simp add: cached_or_def steps_refl)
  next
    case (Inr h)
    obtain r w1 where g: "get_cached_parse h w = (r, w1)"
      by (cases "get_cached_parse h w")
    have s1: "steps w w1"
      using steps_find_one [of w h] g by (simp add: get_cached_parse_def)
    have s2: "steps w (snd (body h w1))"
      using steps_trans [OF assms s1] .
    show ?thesis
      using True Inr g s1 s2 assms [of w h] unfolding cached_or_def
      by (auto split: sum.splits option.splits)
  qed
qed

lemma steps_parse_file_by_type: "steps w (snd (parse_file_by_type ext p uc w))"
  unfolding parse_file_by_type_def parse_pdf_document_def parse_csv_document_def
    parse_json_document_def parse_html_document_def Let_def
  by (auto simp: has_type_literals steps_refl
      intro!: steps_cached_or steps_pdf_body steps_csv_body steps_json_body steps_html_body
        steps_store_and_return
      split: option.splits sum.splits)

lemma steps_ingest_files: "steps w (snd (ingest_files ext root files acc w))"
proof (induction files arbitrary: acc w)
  case Nil
  then show ?case by (simp add: steps_refl)
next
  case (Cons fname rest)
  show ?case
  proof (cases "take 1 fname = ''.''")
    case True
    then show ?thesis using Cons.IH by simp
  next
    case False
    obtain r w1 where pr: "parse_file_by_type ext (os_path_join root fname) True w = (r, w1)"
      by (cases "parse_file_by_type ext (os_path_join root fname) True w")
    have s1: "steps w w1"
      using steps_parse_file_by_type [of w ext "os_path_join root fname" True] pr by simp
    show ?thesis
    proof (cases r)
      case (Inl e)
      then show ?thesis
        using False pr steps_trans [OF Cons.IH s1] by simp
    next
      case (Inr res)
      obtain m mt where res: "res = (m, mt)" by (cases res)
      have "steps w (log SplitText w1)"
        using s1 by (rule steps_log) simp
      then show ?thesis
        using False pr Inr res steps_trans [OF Cons.IH] by (simp add: Let_def)
    qed
  qed
qed

lemma steps_ingest_dirs: "steps w (snd (ingest_dirs ext ds acc w))"
proof (induction ds arbitrary: acc w)
  case Nil
  then show ?case by (simp add: steps_refl)
next
  case (Cons d rest)
  obtain root files where d: "d = (root, files)" by (cases d)
  obtain acc1 w1 where i: "ingest_files ext root files acc w = (acc1, w1)"
    by (cases "ingest_files ext root files acc w")
  have "steps w w1"
    using steps_ingest_files [of w ext root files acc] i by simp
  then show ?case
    using d i steps_trans [OF Cons.IH] by simp
qed

lemma chroma_step_frame:
  "fs (snd (chroma_step w)) = fs w"
  "walk (snd (chroma_step w)) = walk w"
  "clock (snd (chroma_step w)) = clock w"
  "coll (snd (chroma_step w)) = coll w"
  "mongo_env (snd (chroma_step w)) = mongo_env w"
  "vdb (snd (chroma_step w)) = vdb w"
  "trace (snd (chroma_step w)) = trace w"
  "chroma_env (snd (chroma_step w)) = tl (chroma_env w)"
  unfolding chroma_step_def by (auto split: list.splits)



lemma concurrent_inserts_typed:
  "list_all (\<lambda>d. has_type (meta d)) ds \<Longrightarrow> list_all (\<lambda>d. has_type (meta d)) os
     \<Longrightarrow> list_all (\<lambda>d. has_type (meta d)) (concurrent_inserts ds os)"
  by (induction os arbitrary: ds) auto

lemma mongo_step_typed: "store_typed w \<Longrightarrow> store_typed (snd (mongo_step w))"
  unfolding store_typed_def mongo_step_def
  by (auto split: list.splits simp: concurrent_inserts_typed)

lemma steps_typed:
  assumes "steps w w'" and "store_typed w"
  shows "store_typed w'"
  using assms
proof (induction rule: steps.induct)
  case (steps_env w w1)
  then show ?case by (simp add: mongo_step_typed)
qed (simp_all add: store_typed_def log_frame chroma_step_frame)

lemma steps_trace:
  assumes "steps w w'"
  shows "\<exists>evs. trace w' = trace w @ evs \<and> list_all event_typed evs"
  using assms
proof (induction rule: steps.induct)
  case (steps_log w w1 e)
  then obtain evs where "trace w1 = trace w @ evs" "list_all event_typed evs" by blast
  then have "trace (log e w1) = trace w @ (evs @ [e]) \<and> list_all event_typed (evs @ [e])"
    using steps_log.hyps(2) by (simp add: log_frame)
  then show ?case by blast
qed (simp_all add: mongo_step_frame chroma_step_frame)

subsection \<open>The \<open>type\<close> discriminant\<close>

lemma has_content_snd: "snd (has_content w) = log VdbGet (snd (chroma_step w))"
  unfolding has_content_def vdb_get_def by (auto split: prod.splits option.splits)

lemma steps_vdb_add_texts: "steps w (snd (vdb_add_texts texts metadatas w))"
proof -
  let ?w1 = "snd (chroma_step w)"
  have s1: "steps w (log (VdbAdd (length texts)) ?w1)"
    by (intro steps.intros) simp
  have "steps w ((log (VdbAdd (length texts)) ?w1)\<lparr>vdb := vdb ?w1 @ zip texts metadatas\<rparr>)"
    using s1 by (rule steps_add)
  then show ?thesis
    using s1 unfolding vdb_add_texts_def by (auto split: prod.splits option.splits)
qed

lemma steps_build_or_load_vectorstore: "steps w (snd (build_or_load_vectorstore ext d w))"
proof -
  obtain b w1 where hc: "has_content w = (b, w1)" by (cases "has_content w")
  have w1: "w1 = log VdbGet (snd (chroma_step w))"
    using hc has_content_snd [of w] by simp
  have s1: "steps w w1"
    unfolding w1 by (intro steps.intros) simp
  show ?thesis
  proof (cases b)
    case True
    then show ?thesis using hc s1 by (simp add: build_or_load_vectorstore_def)
  next
    case False
    obtain texts metadatas w2 where
      ing: "ingest_dirs ext (os_walk w1 d) ([], []) w1 = ((texts, metadatas), w2)"
      by (cases "ingest_dirs ext (os_walk w1 d) ([], []) w1") auto
    have s2: "steps w w2"
      using steps_trans [OF steps_ingest_dirs s1, of ext "os_walk w1 d" "([], [])"] ing by simp
    have "steps w (snd (vdb_add_texts texts metadatas w2))"
      using steps_trans [OF steps_vdb_add_texts s2] .
    then show ?thesis
      using False hc ing s2 by (simp add: build_or_load_vectorstore_def)
  qed
qed

lemma reachable_steps: "reachable ext w0 w \<Longrightarrow> steps w0 w"
proof (induction rule: reachable.induct)
  case reach_start
  show ?case by (rule steps_refl)
next
  case (reach_parse w p uc)
  then show ?case using steps_trans [OF steps_parse_file_by_type] by blast
next
  case (reach_bootstrap w input_dir)
  then show ?case using steps_trans [OF steps_build_or_load_vectorstore] by blast
qed

text \<open>
  Claim C9. Start from a store whose documents carry a \<open>type\<close> that is one of \<open>pdf\<close>,
  \<open>csv\<close>, \<open>json\<close>, \<open>html\<close>, \<open>txt_or_other\<close> (the empty store is one), the other writers
  inserting such documents too. In every world the parsers and the bootstrap reach from there,
  each stored document has such a \<open>type\<close>, and so has each document that was offered to
  \<open>insert_one\<close> on the way, the CSV and JSON fallbacks included.
\<close>

theorem persisted_records_have_type:
  assumes "store_typed w0" and "reachable ext w0 w"
  shows "(\<forall>d \<in> set (coll w). has_type (meta d))
         \<and> (\<forall>d. MongoInsert d \<in> set (drop (length (trace w0)) (trace w)) \<longrightarrow> has_type (meta d))"
proof -
  have s: "steps w0 w" using assms(2) by (rule reachable_steps)
  have "store_typed w" using s assms(1) by (rule steps_typed)
  then have a: "\<forall>d \<in> set (coll w). has_type (meta d)"
    by (simp add: store_typed_def list_all_iff)
  obtain evs where evs: "trace w = trace w0 @ evs" "list_all event_typed evs"
    using steps_trace [OF s] by blast
  have b: "\<forall>d. MongoInsert d \<in> set (drop (length (trace w0)) (trace w)) \<longrightarrow> has_type (meta d)"
  proof (intro allI impI)
    fix d assume "MongoInsert d \<in> set (drop (length (trace w0)) (trace w))"
    then have "MongoInsert d \<in> set evs" using evs(1) by simp
    with evs(2) have "event_typed (MongoInsert d)"
      unfolding list_all_iff by (rule bspec)
    then show "has_type (meta d)" by simp
  qed
  show ?thesis using a b by blast
qed

lemma race_parse_coll:
  "coll (snd (parse_file_by_type sample_ext ''a.txt'' True race_world)) = [rival_doc]"
  by (simp add: parse_file_by_type_def splitext_a_txt race_world_def sha256_of_file_def read_chunks_foldl
      sample_ext_def hi_file_def store_and_return_def upsert_parsed_doc_def insert_one_def
      mongo_step_def log_def find_hash_def rival_doc_def new_doc_def get_cached_parse_def
      find_one_def Let_def py_read_def decode_text_def)

text \<open>An instance: one parse of \<open>a.txt\<close> in the race world.\<close>

theorem persisted_records_have_type_witness:
  "store_typed race_world
   \<and> reachable sample_ext race_world (snd (parse_file_by_type sample_ext ''a.txt'' True race_world))
   \<and> coll (snd (parse_file_by_type sample_ext ''a.txt'' True race_world)) = [rival_doc]
   \<and> has_type (meta rival_doc)"
proof -
  have a: "store_typed race_world"
    by (simp add: store_typed_def race_world_def rival_doc_def has_type_def doc_types_def)
  have b: "reachable sample_ext race_world
             (snd (parse_file_by_type sample_ext ''a.txt'' True race_world))"
    by (intro reachable.intros)
  show ?thesis
    using persisted_records_have_type [OF a b] a b race_parse_coll by simp
qed

subsection \<open>Driver failures of the store\<close>




















subsection \<open>Store failures during the bootstrap\<close>









subsection \<open>The bootstrap is one-shot\<close>




subsection \<open>Bounded reads of the JSON and HTML parsers\<close>

lemma json_pretty_fallback:
  "json_parse_fails ext t \<Longrightarrow> json_pretty ext max_chars t = json_fallback max_chars t"
  unfolding json_parse_fails_def json_pretty_def by (auto split: sum.splits)

lemma json_body_md:
  "map_of (fs w) p = Some f \<Longrightarrow>
   json_body ext p max_chars h w =
     store_and_return ext p h
       (lit ''```json'' @ nl @ json_pretty ext max_chars (decode_text (content f)) @ nl @ lit ''```'')
       [(''type'', MStr (lit ''json''))]
       (\<lambda>stored. [(''cached'', MBool False), (''file_hash'', MStr (lit h))])
       (log (JsonLoad p) w)"
  by (simp add: json_body_def Let_def)

text \<open>
  Claim C7. When loading or re-serialising the JSON raises, the text between the fences is the
  first \<open>max_chars\<close> characters of the decoded file (all of it when it is shorter), followed by
  the marker exactly when that prefix has \<open>max_chars\<close> characters. \<open>max_chars\<close> is not
  negative; the dispatcher passes 200000.
\<close>

theorem json_fallback_marker:
  assumes "0 \<le> max_chars" and "map_of (fs w) p = Some f"
    and "json_parse_fails ext (decode_text (content f))"
  shows "\<exists>prefix. prefix = take (nat max_chars) (decode_text (content f))
           \<and> int (length prefix) \<le> max_chars
           \<and> json_pretty ext max_chars (decode_text (content f)) =
               prefix @ (if int (length prefix) = max_chars then nl @ lit ''...truncated'' else [])
           \<and> json_body ext p max_chars h w =
               store_and_return ext p h
                 (lit ''```json'' @ nl
                    @ prefix @ (if int (length prefix) = max_chars then nl @ lit ''...truncated'' else [])
                    @ nl @ lit ''```'')
                 [(''type'', MStr (lit ''json''))]
                 (\<lambda>stored. [(''cached'', MBool False), (''file_hash'', MStr (lit h))])
                 (log (JsonLoad p) w)"
proof -
  have "json_pretty ext max_chars (decode_text (content f)) =
          take (nat max_chars) (decode_text (content f))
            @ (if int (length (take (nat max_chars) (decode_text (content f)))) = max_chars
               then nl @ lit ''...truncated'' else [])"
    using assms(1,3)
    by (simp add: json_pretty_fallback json_fallback_def py_read_def slice_to_def Let_def)
  then show ?thesis
    using assms(1) json_body_md [OF assms(2), of ext max_chars h] by simp
qed

text \<open>Instances on a two-character file: with \<open>max_chars = 2\<close> the marker is there, with
  \<open>max_chars = 3\<close> it is not.\<close>

theorem json_fallback_marker_witness:
  "map_of (fs formats_world) ''d.json'' = Some hi_file
   \<and> json_parse_fails sample_ext (decode_text (content hi_file))
   \<and> json_pretty sample_ext 2 (decode_text (content hi_file)) = [104, 105] @ nl @ lit ''...truncated''
   \<and> json_pretty sample_ext 3 (decode_text (content hi_file)) = [104, 105]"
proof -
  have a: "map_of (fs formats_world) ''d.json'' = Some hi_file"
    by (simp add: formats_world_def)
  have f: "json_parse_fails sample_ext (decode_text (content hi_file))"
    by (simp add: json_parse_fails_def sample_ext_def)
  have d: "decode_text (content hi_file) = [104, 105]"
    by (simp add: decode_text_def hi_file_def)
  have two: "(0::int) \<le> 2" and three: "(0::int) \<le> 3" by simp_all
  show ?thesis
    using json_fallback_marker [OF two a f] json_fallback_marker [OF three a f] a f d
    by simp
qed

text \<open>
  Claim C10. The HTML parser hands the first \<open>max_chars\<close> characters of the decoded file to
  the tag stripper and nothing else: two files that agree on those characters get the same
  normalized text, whatever follows in either. \<open>max_chars\<close> is not negative; the dispatcher
  passes 200000.
\<close>

theorem html_reads_bounded_prefix:
  assumes "0 \<le> max_chars"
    and "take (nat max_chars) (decode_text bs1) = take (nat max_chars) (decode_text bs2)"
  shows "html_md ext max_chars bs1 = html_md ext max_chars bs2
         \<and> int (length (py_read max_chars (decode_text bs1))) \<le> max_chars"
  using assms by (simp add: html_md_def py_read_def)

text \<open>An instance: a tag after the second character is not seen with \<open>max_chars = 2\<close>.\<close>

theorem html_reads_bounded_prefix_witness:
  "take (nat 2) (decode_text [0x68, 0x69, 0x3C, 0x62, 0x3E]) = take (nat 2) (decode_text [0x68, 0x69])
   \<and> html_md sample_ext 2 [0x68, 0x69, 0x3C, 0x62, 0x3E] = html_md sample_ext 2 [0x68, 0x69]
   \<and> html_md sample_ext 2 [0x68, 0x69] = [104, 105]"
proof -
  have a: "take (nat 2) (decode_text [0x68, 0x69, 0x3C, 0x62, 0x3E])
           = take (nat 2) (decode_text [0x68, 0x69])"
    by (simp add: decode_text_def)
  have b: "html_md sample_ext 2 [0x68, 0x69] = [104, 105]"
    by (simp add: html_md_def py_read_def decode_text_def sample_ext_def splitlines_def
        is_linebreak_def strip_def is_space_def Let_def)
  show ?thesis
    using html_reads_bounded_prefix [of 2 "[0x68, 0x69, 0x3C, 0x62, 0x3E]" "[0x68, 0x69]" sample_ext]
      a b by simp
qed

subsection \<open>The CSV fallback\<close>




















subsection \<open>The query\<close>


text \<open>As \<open>main\<close> is written, the query block is not reached: the call that builds the
  vector store raises \<open>TypeError\<close>, and \<open>main\<close> returns after reporting it.\<close>

lemma main_stops_at_vectorstore_init:
  "trace (main ext top_k line w) =
     trace w @ [Print (lit ''[start] building/loading vectorstore...''),
                Print (lit ''Vectorstore init failed: ''
                         @ lit ''build_or_load_vectorstore() takes 1 positional argument but 2 were given'')]"
  by (simp add: main_def call_with_two_arguments_def log_frame)


end
